theory Spec2Isabelle
  imports Complex_Main
begin

section \<open>Python strings\<close>

text \<open>
  A Python \<open>str\<close> is modelled as a \<open>string\<close>, each \<open>char\<close> standing for one code
  point below 256. \<open>bytes\<close> are a list of \<open>char\<close> as well.
\<close>

type_synonym bytes = "char list"

text \<open>\<open>s.startswith(p)\<close>.\<close>

definition startswith :: "string \<Rightarrow> string \<Rightarrow> bool" where
  "startswith s p = (take (length p) s = p)"

text \<open>
  \<open>s.split(sep)\<close> for a separator of one character: the pieces between the
  separators, so never the empty list (\<open>"".split("/")\<close> is \<open>[""]\<close>).
\<close>

fun split_char :: "char \<Rightarrow> string \<Rightarrow> string list" where
  "split_char sep [] = [[]]"
| "split_char sep (x # xs) =
     (if x = sep then [] # split_char sep xs
      else (case split_char sep xs of
              [] \<Rightarrow> [[x]]
            | y # ys \<Rightarrow> (x # y) # ys))"

text \<open>\<open>s.replace(a, b)\<close> for single characters \<open>a\<close> and \<open>b\<close>.\<close>

definition replace_char :: "char \<Rightarrow> char \<Rightarrow> string \<Rightarrow> string" where
  "replace_char a b s = map (\<lambda>c. if c = a then b else c) s"

text \<open>\<open>sep.join(xs)\<close> on a list of strings.\<close>

fun join :: "string \<Rightarrow> string list \<Rightarrow> string" where
  "join sep [] = []"
| "join sep [x] = x"
| "join sep (x # y # ys) = x @ sep @ join sep (y # ys)"

text \<open>
  \<open>sep.join(s)\<close> on a string \<open>s\<close>: Python iterates over the characters of \<open>s\<close>.
\<close>

definition join_str :: "string \<Rightarrow> string \<Rightarrow> string" where
  "join_str sep s = join sep (map (\<lambda>c. [c]) s)"

text \<open>
  \<open>s.strip()\<close>: the whitespace of \<open>str.isspace\<close> among the code points below 256
  (tab to carriage return, the four separators 28 to 31, space, NEL and the
  no-break space) is removed at both ends.
\<close>

definition py_isspace :: "char \<Rightarrow> bool" where
  "py_isspace c =
     (let n = of_char c :: nat
      in (9 \<le> n \<and> n \<le> 13) \<or> (28 \<le> n \<and> n \<le> 32) \<or> n = 133 \<or> n = 160)"

definition strip :: "string \<Rightarrow> string" where
  "strip s = rev (dropWhile py_isspace (rev (dropWhile py_isspace s)))"

text \<open>\<open>str(n)\<close> for an integer, used by the f-strings of the error messages.\<close>

definition digit_char :: "nat \<Rightarrow> char" where
  "digit_char d = ''0123456789'' ! d"

function str_nat :: "nat \<Rightarrow> string" where
  "str_nat n = (if n < 10 then [digit_char n] else str_nat (n div 10) @ [digit_char (n mod 10)])"
  by pat_completeness auto
termination
  by (relation "measure (\<lambda>n. n)") auto

definition py_str_int :: "int \<Rightarrow> string" where
  "py_str_int i = (if i < 0 then CHR ''-'' # str_nat (nat (- i)) else str_nat (nat i))"

section \<open>The client and its class constants\<close>

record CatboxAsyncUploader =
  userhash :: "string option"

definition api_url :: string where
  "api_url = ''https://catbox.moe/user/api.php''"

definition file_url :: string where
  "file_url = ''https://files.catbox.moe''"

definition album_url :: string where
  "album_url = ''https://catbox.moe/c''"

definition default_timeout :: int where
  "default_timeout = 30"

definition default_album_chunk_size :: int where
  "default_album_chunk_size = 50"

definition default_album_time_sleep :: real where
  "default_album_time_sleep = 3 / 2"

section \<open>Shortcode extraction\<close>

text \<open>
  \<^verbatim>\<open>
  def get_shortcode_from_url(self, url):
      if url.startswith(self.file_url) or url.startswith(self.album_url):
          url = url.split("/")[-1]
      return url
  \<close>
  The index \<open>[-1]\<close> is \<open>last\<close>: \<open>split\<close> never returns the empty list
  (lemma \<open>split_char_nonempty\<close>), so the read is always in range.
\<close>

definition get_shortcode_from_url :: "string \<Rightarrow> string" where
  "get_shortcode_from_url url =
     (if startswith url file_url \<or> startswith url album_url
      then last (split_char CHR ''/'' url)
      else url)"

section \<open>Exceptions\<close>

text \<open>
  The exception classes of \<open>exceptions.py\<close>, the built-in exceptions the code can
  meet, and the exceptions of \<open>asyncio\<close> and \<open>aiohttp\<close> that the \<open>except\<close> clauses
  name. \<open>ClientError\<close> stands for an instance of \<open>aiohttp.ClientError\<close> that is of none
  of the more specific classes below; \<open>ServerTimeoutError\<close> derives from both
  \<open>ClientConnectionError\<close> (through \<open>ServerConnectionError\<close>) and
  \<open>asyncio.TimeoutError\<close>. The aiohttp exceptions carry the text of \<open>str(err)\<close>.
\<close>

datatype exn =
    CatboxError string
  | CatboxFileNotFoundError string
  | CatboxTimeoutError string
  | CatboxConnectionError string
  | CatboxHTTPError string
  | Exception string
  | ValueError string
  | OSError string
  | TimeoutError
  | ClientError string
  | ClientConnectionError string
  | ClientResponseError string
  | ServerTimeoutError string

text \<open>\<open>isinstance(e, CatboxError)\<close>: the base class and its four subclasses.\<close>

fun is_CatboxError :: "exn \<Rightarrow> bool" where
  "is_CatboxError (CatboxError m) = True"
| "is_CatboxError (CatboxFileNotFoundError m) = True"
| "is_CatboxError (CatboxTimeoutError m) = True"
| "is_CatboxError (CatboxConnectionError m) = True"
| "is_CatboxError (CatboxHTTPError m) = True"
| "is_CatboxError e = False"

text \<open>\<open>isinstance(e, asyncio.TimeoutError)\<close>.\<close>

fun is_TimeoutError :: "exn \<Rightarrow> bool" where
  "is_TimeoutError TimeoutError = True"
| "is_TimeoutError (ServerTimeoutError m) = True"
| "is_TimeoutError e = False"

text \<open>\<open>isinstance(e, aiohttp.ClientConnectionError)\<close>.\<close>

fun is_ClientConnectionError :: "exn \<Rightarrow> bool" where
  "is_ClientConnectionError (ClientConnectionError m) = True"
| "is_ClientConnectionError (ServerTimeoutError m) = True"
| "is_ClientConnectionError e = False"

text \<open>\<open>isinstance(e, aiohttp.ClientResponseError)\<close>.\<close>

fun is_ClientResponseError :: "exn \<Rightarrow> bool" where
  "is_ClientResponseError (ClientResponseError m) = True"
| "is_ClientResponseError e = False"

text \<open>\<open>isinstance(e, aiohttp.ClientError)\<close>.\<close>

fun is_ClientError :: "exn \<Rightarrow> bool" where
  "is_ClientError (ClientError m) = True"
| "is_ClientError (ClientConnectionError m) = True"
| "is_ClientError (ClientResponseError m) = True"
| "is_ClientError (ServerTimeoutError m) = True"
| "is_ClientError e = False"

text \<open>\<open>str(e)\<close>, as the f-strings of the handlers render the caught error.\<close>

fun str_exn :: "exn \<Rightarrow> string" where
  "str_exn (CatboxError m) = m"
| "str_exn (CatboxFileNotFoundError m) = m"
| "str_exn (CatboxTimeoutError m) = m"
| "str_exn (CatboxConnectionError m) = m"
| "str_exn (CatboxHTTPError m) = m"
| "str_exn (Exception m) = m"
| "str_exn (ValueError m) = m"
| "str_exn (OSError m) = m"
| "str_exn TimeoutError = []"
| "str_exn (ClientError m) = m"
| "str_exn (ClientConnectionError m) = m"
| "str_exn (ClientResponseError m) = m"
| "str_exn (ServerTimeoutError m) = m"

section \<open>The enumeration of retention periods\<close>

datatype LitterboxDuration = H1 | H12 | H24 | H72 | W1

fun duration_value :: "LitterboxDuration \<Rightarrow> string" where
  "duration_value H1 = ''1h''"
| "duration_value H12 = ''12h''"
| "duration_value H24 = ''24h''"
| "duration_value H72 = ''72h''"
| "duration_value W1 = ''1w''"

section \<open>Requests, responses and the outside world\<close>

text \<open>
  An upload input is a \<open>str\<close> (a path), a \<open>bytes\<close> object, or a value of another
  type (the last branch of the \<open>isinstance\<close> chains).
\<close>

datatype file_path_or_bytes = PyStr string | PyBytes bytes | PyOther

text \<open>
  A field of the multipart form: a text value, or a file part with its content,
  the \<open>filename\<close> argument as passed (\<open>None\<close> when absent) and its content type.
\<close>

datatype field_value = Text string | FilePart bytes "string option" string

text \<open>
  One \<open>session.post\<close>: the URL, the \<open>total\<close> timeout of the session (\<open>None\<close> for a
  \<open>ClientSession()\<close> built with no timeout argument) and the form fields in order.
\<close>

record request =
  req_url :: string
  req_timeout :: "int option"
  req_fields :: "(string \<times> field_value) list"

text \<open>
  What the code reads of a response: the status, the outcome of
  \<open>await response.text()\<close>, and the text of the \<open>ClientResponseError\<close> that
  \<open>raise_for_status\<close> builds for it.
\<close>

record response =
  resp_status :: int
  resp_text :: "exn + string"
  resp_error :: string

text \<open>
  The file system and the remote service: what reading a path gives (the bytes,
  or the exception of \<open>aiofiles.open\<close>) and what a request gives (the response, or
  the exception of \<open>aiohttp\<close>). Both are functions of their argument alone: within
  one call the same path reads the same and the same request is answered the same.
\<close>

record world =
  aio_read :: "string \<Rightarrow> exn + bytes"
  http_post :: "request \<Rightarrow> exn + response"

text \<open>The observable effects of a call, in the order the call performs them.\<close>

datatype event = FileRead string | HttpPost request | Sleep real

text \<open>
  A coroutine run to its end: the value returned or the exception raised, and
  the effects performed. Logging and \<open>print\<close> are left out.
\<close>

type_synonym 'a io = "(exn + 'a) \<times> event list"

text \<open>
  A \<open>try\<close> block with its \<open>except\<close> clauses: \<open>h\<close> maps the exception raised in the
  body to the one that leaves the statement (itself when no clause matches).
\<close>

definition try_except :: "(exn \<Rightarrow> exn) \<Rightarrow> 'a io \<Rightarrow> 'a io" where
  "try_except h m = (case m of (Inl e, ev) \<Rightarrow> (Inl (h e), ev) | (Inr v, ev) \<Rightarrow> (Inr v, ev))"

text \<open>
  \<open>response.raise_for_status()\<close>: a \<open>ClientResponseError\<close> for a status of 400 or more.
\<close>

definition raise_for_status :: "response \<Rightarrow> exn + unit" where
  "raise_for_status r =
     (if 400 \<le> resp_status r then Inl (ClientResponseError (resp_error r)) else Inr ())"

text \<open>
  \<open>await asyncio.gather(*tasks)\<close>: every coroutine of the list is started and none
  is cancelled when another fails, so the effects of all of them are performed;
  the results come in the order of the list. The interleaving of the coroutines
  is not modelled: the effects are listed coroutine by coroutine and, when
  several fail, the exception is that of the first failing one in list order.
\<close>

fun gather :: "'a io list \<Rightarrow> 'a list io" where
  "gather [] = (Inr [], [])"
| "gather ((r, ev) # ts) =
     (case gather ts of
        (rs, evs) \<Rightarrow>
          (case r of
             Inl e \<Rightarrow> Inl e
           | Inr v \<Rightarrow> (case rs of Inl e' \<Rightarrow> Inl e' | Inr vs \<Rightarrow> Inr (v # vs)),
           ev @ evs))"

section \<open>Helpers of the client\<close>

text \<open>
  \<^verbatim>\<open>
  def _check_userhash_value(self):
      if self.userhash is None:
          raise CatboxError(f"Userhash is required.")
  \<close>
  The model hands the token back on success, for the form field that the caller
  fills with \<open>self.userhash\<close> right after the check.
\<close>

definition check_userhash_value :: "CatboxAsyncUploader \<Rightarrow> exn + string" where
  "check_userhash_value c =
     (case userhash c of
        None \<Rightarrow> Inl (CatboxError ''Userhash is required.'')
      | Some h \<Rightarrow> Inr h)"

text \<open>
  \<^verbatim>\<open>
  async def _get_content(file_path_or_bytes):
      if isinstance(file_path_or_bytes, str):
          async with aiofiles.open(file_path_or_bytes, "rb") as f:
              return await f.read()
      elif isinstance(file_path_or_bytes, bytes):
          return file_path_or_bytes
      else:
          raise CatboxError("Only file paths are supported in this version.")
  \<close>
\<close>

fun get_content :: "world \<Rightarrow> file_path_or_bytes \<Rightarrow> bytes io" where
  "get_content w (PyStr p) = (aio_read w p, [FileRead p])"
| "get_content w (PyBytes b) = (Inr b, [])"
| "get_content w PyOther =
     (Inl (CatboxError ''Only file paths are supported in this version.''), [])"

text \<open>
  \<^verbatim>\<open>
  def _prepare_content(file_path_or_bytes, file_name=None):
      content = file_path_or_bytes
      if file_name is None:
          if isinstance(file_path_or_bytes, str):
              file_name = file_path_or_bytes.replace("\\", "/").split("/")[-1]
          elif isinstance(file_path_or_bytes, bytes):
              raise CatboxError("Need to set file_name")
      return file_name, content
  \<close>
\<close>

fun prepare_content ::
  "file_path_or_bytes \<Rightarrow> string option \<Rightarrow> exn + (string option \<times> file_path_or_bytes)" where
  "prepare_content (PyStr p) None =
     Inr (Some (last (split_char CHR ''/'' (replace_char (CHR 0x5C) CHR ''/'' p))), PyStr p)"
| "prepare_content (PyBytes b) None = Inl (CatboxError ''Need to set file_name'')"
| "prepare_content PyOther None = Inr (None, PyOther)"
| "prepare_content x (Some n) = Inr (Some n, x)"

section \<open>Upload operations\<close>

text \<open>
  The body of \<open>upload_file\<close> inside its \<open>try\<close>: the token check, the file name,
  the content, then one POST; a status other than 200 raises \<open>CatboxError\<close>,
  otherwise the stripped body is returned.
  \<^verbatim>\<open>
  self._check_userhash_value()
  file_name, content = self._prepare_content(file_path_or_bytes, file_name=file_name)
  form_data.add_field("reqtype", "fileupload")
  form_data.add_field("userhash", self.userhash)
  form_data.add_field("fileToUpload", await self._get_content(content),
                      filename=file_name, content_type="application/octet-stream")
  async with aiohttp.ClientSession(timeout=aiohttp.ClientTimeout(total=timeout)) as session:
      async with session.post(self.api_url, data=form_data) as response:
          if response.status != 200:
              raise CatboxError("Failed to upload file to Catbox.")
          response_text = await response.text()
          return response_text.strip()
  \<close>
\<close>

definition upload_file_request :: "string \<Rightarrow> bytes \<Rightarrow> string option \<Rightarrow> int \<Rightarrow> request" where
  "upload_file_request h content file_name timeout =
     \<lparr>req_url = api_url, req_timeout = Some timeout,
      req_fields = [(''reqtype'', Text ''fileupload''),
                    (''userhash'', Text h),
                    (''fileToUpload'', FilePart content file_name ''application/octet-stream'')]\<rparr>"

definition upload_file_body ::
  "CatboxAsyncUploader \<Rightarrow> world \<Rightarrow> file_path_or_bytes \<Rightarrow> int \<Rightarrow> string option \<Rightarrow> string io" where
  "upload_file_body c w file_path_or_bytes timeout file_name =
     (case check_userhash_value c of
        Inl e \<Rightarrow> (Inl e, [])
      | Inr h \<Rightarrow>
          (case prepare_content file_path_or_bytes file_name of
             Inl e \<Rightarrow> (Inl e, [])
           | Inr (name, content) \<Rightarrow>
               (case get_content w content of
                  (Inl e, ev) \<Rightarrow> (Inl e, ev)
                | (Inr data, ev) \<Rightarrow>
                    (let req = upload_file_request h data name timeout
                     in (case http_post w req of
                           Inl e \<Rightarrow> (Inl e, ev @ [HttpPost req])
                         | Inr response \<Rightarrow>
                             (if resp_status response \<noteq> 200
                              then (Inl (CatboxError ''Failed to upload file to Catbox.''),
                                    ev @ [HttpPost req])
                              else (case resp_text response of
                                      Inl e \<Rightarrow> (Inl e, ev @ [HttpPost req])
                                    | Inr response_text \<Rightarrow>
                                        (Inr (strip response_text), ev @ [HttpPost req]))))))))"

text \<open>
  The \<open>except\<close> clauses of \<open>upload_file\<close>, tried in order:
  \<^verbatim>\<open>
  except asyncio.TimeoutError:
      raise CatboxTimeoutError(f"Upload request timed out after {timeout} seconds.")
  except aiohttp.ClientConnectionError:
      raise CatboxConnectionError("Failed to connect to Catbox.")
  except aiohttp.ClientError as err:
      raise CatboxError(f"An error occurred: {err}")
  \<close>
\<close>

definition upload_file_except :: "int \<Rightarrow> exn \<Rightarrow> exn" where
  "upload_file_except timeout e =
     (if is_TimeoutError e
      then CatboxTimeoutError
             (''Upload request timed out after '' @ py_str_int timeout @ '' seconds.'')
      else if is_ClientConnectionError e
      then CatboxConnectionError ''Failed to connect to Catbox.''
      else if is_ClientError e
      then CatboxError (''An error occurred: '' @ str_exn e)
      else e)"

definition upload_file ::
  "CatboxAsyncUploader \<Rightarrow> world \<Rightarrow> file_path_or_bytes \<Rightarrow> int \<Rightarrow> string option \<Rightarrow> string io" where
  "upload_file c w file_path_or_bytes timeout file_name =
     try_except (upload_file_except timeout)
       (upload_file_body c w file_path_or_bytes timeout file_name)"

text \<open>
  The body of \<open>upload_to_litterbox\<close>: no token check and no call of
  \<open>_prepare_content\<close>; \<open>file_name\<close> goes to the form as it was passed, and a status
  other than 200 raises the built-in \<open>Exception\<close>.
  \<^verbatim>\<open>
  form_data.add_field("reqtype", "fileupload")
  form_data.add_field("time", duration.value)
  form_data.add_field("fileToUpload", await self._get_content(file_path_or_bytes),
                      filename=file_name, content_type="application/octet-stream")
  async with aiohttp.ClientSession(timeout=aiohttp.ClientTimeout(total=timeout)) as session:
      async with session.post(self.api_url, data=form_data) as response:
          if response.status != 200:
              raise Exception("Failed to upload file to Catbox.")
          response_text = await response.text()
          response_text = response_text.strip()
          return response_text.strip()
  \<close>
\<close>

definition litterbox_request ::
  "LitterboxDuration \<Rightarrow> bytes \<Rightarrow> string option \<Rightarrow> int \<Rightarrow> request" where
  "litterbox_request duration content file_name timeout =
     \<lparr>req_url = api_url, req_timeout = Some timeout,
      req_fields = [(''reqtype'', Text ''fileupload''),
                    (''time'', Text (duration_value duration)),
                    (''fileToUpload'', FilePart content file_name ''application/octet-stream'')]\<rparr>"

definition upload_to_litterbox_body ::
  "world \<Rightarrow> file_path_or_bytes \<Rightarrow> string option \<Rightarrow> LitterboxDuration \<Rightarrow> int \<Rightarrow> string io" where
  "upload_to_litterbox_body w file_path_or_bytes file_name duration timeout =
     (case get_content w file_path_or_bytes of
        (Inl e, ev) \<Rightarrow> (Inl e, ev)
      | (Inr data, ev) \<Rightarrow>
          (let req = litterbox_request duration data file_name timeout
           in (case http_post w req of
                 Inl e \<Rightarrow> (Inl e, ev @ [HttpPost req])
               | Inr response \<Rightarrow>
                   (if resp_status response \<noteq> 200
                    then (Inl (Exception ''Failed to upload file to Catbox.''),
                          ev @ [HttpPost req])
                    else (case resp_text response of
                            Inl e \<Rightarrow> (Inl e, ev @ [HttpPost req])
                          | Inr response_text \<Rightarrow>
                              (Inr (strip (strip response_text)), ev @ [HttpPost req]))))))"

text \<open>
  \<^verbatim>\<open>
  except asyncio.TimeoutError:
      raise CatboxTimeoutError(f"Upload to Litterbox timed out after {timeout} seconds.")
  except aiohttp.ClientConnectionError:
      raise CatboxConnectionError("Failed to connect to Litterbox. The server might be down.")
  except aiohttp.ClientResponseError as err:
      raise CatboxHTTPError(f"HTTP error occurred: {err}")
  except aiohttp.ClientError as err:
      raise CatboxError(f"An error occurred: {err}")
  \<close>
\<close>

definition upload_to_litterbox_except :: "int \<Rightarrow> exn \<Rightarrow> exn" where
  "upload_to_litterbox_except timeout e =
     (if is_TimeoutError e
      then CatboxTimeoutError
             (''Upload to Litterbox timed out after '' @ py_str_int timeout @ '' seconds.'')
      else if is_ClientConnectionError e
      then CatboxConnectionError ''Failed to connect to Litterbox. The server might be down.''
      else if is_ClientResponseError e
      then CatboxHTTPError (''HTTP error occurred: '' @ str_exn e)
      else if is_ClientError e
      then CatboxError (''An error occurred: '' @ str_exn e)
      else e)"

definition upload_to_litterbox ::
  "CatboxAsyncUploader \<Rightarrow> world \<Rightarrow> file_path_or_bytes \<Rightarrow> string option \<Rightarrow> LitterboxDuration
     \<Rightarrow> int \<Rightarrow> string io" where
  "upload_to_litterbox c w file_path_or_bytes file_name duration timeout =
     try_except (upload_to_litterbox_except timeout)
       (upload_to_litterbox_body w file_path_or_bytes file_name duration timeout)"

section \<open>Album uploads\<close>

text \<open>
  \<open>range(i, n, k)\<close> for a positive step \<open>k\<close>: \<open>i, i + k, ...\<close> below \<open>n\<close>.
\<close>

function range_step :: "nat \<Rightarrow> nat \<Rightarrow> nat \<Rightarrow> nat list" where
  "range_step i n k = (if 0 < k \<and> i < n then i # range_step (i + k) n k else [])"
  by pat_completeness auto
termination
  by (relation "measure (\<lambda>(i, n, k). n - i)") auto

text \<open>
  \<^verbatim>\<open>
  chunks = [file_paths[i:i + chunk_size]
            for i in range(0, len(file_paths), chunk_size)]
  \<close>
  \<open>range\<close> raises \<open>ValueError\<close> for a step of zero and is empty for a negative step
  (its start 0 is not above its stop); the slice \<open>xs[i:i + k]\<close> with \<open>i\<close> in range is
  \<open>take k (drop i xs)\<close>.
\<close>

definition chunks :: "'a list \<Rightarrow> int \<Rightarrow> exn + 'a list list" where
  "chunks file_paths chunk_size =
     (if chunk_size = 0 then Inl (ValueError ''range() arg 3 must not be zero'')
      else if chunk_size < 0 then Inr []
      else Inr (map (\<lambda>i. take (nat chunk_size) (drop i file_paths))
                    (range_step 0 (length file_paths) (nat chunk_size))))"

text \<open>
  The loop over the chunks, \<open>up\<close> being the upload of one path:
  \<^verbatim>\<open>
  for index, chunk in enumerate(chunks, start=1):
      tasks = [up(file_path) for file_path in chunk]
      uploaded_links.extend(await asyncio.gather(*tasks))
      await asyncio.sleep(time_sleep)
  return uploaded_links
  \<close>
\<close>

fun upload_chunks ::
  "(string \<Rightarrow> string io) \<Rightarrow> real \<Rightarrow> string list \<Rightarrow> string list list \<Rightarrow> string list io" where
  "upload_chunks up time_sleep uploaded_links [] = (Inr uploaded_links, [])"
| "upload_chunks up time_sleep uploaded_links (chunk # rest) =
     (case gather (map up chunk) of
        (Inl e, ev) \<Rightarrow> (Inl e, ev)
      | (Inr links, ev) \<Rightarrow>
          (case upload_chunks up time_sleep (uploaded_links @ links) rest of
             (r, ev') \<Rightarrow> (r, ev @ Sleep time_sleep # ev')))"

text \<open>
  The \<open>except\<close> clauses shared by \<open>upload_album\<close> and \<open>upload_album_to_litterbox\<close>:
  \<^verbatim>\<open>
  except asyncio.TimeoutError:
      raise CatboxTimeoutError(f"Album upload timed out after {timeout} seconds.")
  except aiohttp.ClientConnectionError:
      raise CatboxConnectionError("Failed to connect to Catbox. The server might be down.")
  except aiohttp.ClientResponseError as err:
      raise CatboxHTTPError(f"HTTP error occurred: {err}")
  except aiohttp.ClientError as err:
      raise CatboxError(f"An error occurred: {err}")
  \<close>
\<close>

definition album_except :: "int \<Rightarrow> exn \<Rightarrow> exn" where
  "album_except timeout e =
     (if is_TimeoutError e
      then CatboxTimeoutError
             (''Album upload timed out after '' @ py_str_int timeout @ '' seconds.'')
      else if is_ClientConnectionError e
      then CatboxConnectionError ''Failed to connect to Catbox. The server might be down.''
      else if is_ClientResponseError e
      then CatboxHTTPError (''HTTP error occurred: '' @ str_exn e)
      else if is_ClientError e
      then CatboxError (''An error occurred: '' @ str_exn e)
      else e)"

definition upload_album ::
  "CatboxAsyncUploader \<Rightarrow> world \<Rightarrow> string list \<Rightarrow> int \<Rightarrow> int \<Rightarrow> real \<Rightarrow> string list io" where
  "upload_album c w file_paths timeout chunk_size time_sleep =
     try_except (album_except timeout)
       (case chunks file_paths chunk_size of
          Inl e \<Rightarrow> (Inl e, [])
        | Inr chs \<Rightarrow>
            upload_chunks (\<lambda>file_path. upload_file c w (PyStr file_path) timeout None)
              time_sleep [] chs)"

definition upload_album_to_litterbox ::
  "CatboxAsyncUploader \<Rightarrow> world \<Rightarrow> string list \<Rightarrow> int \<Rightarrow> LitterboxDuration \<Rightarrow> int \<Rightarrow> real
     \<Rightarrow> string list io" where
  "upload_album_to_litterbox c w file_paths timeout duration chunk_size time_sleep =
     try_except (album_except timeout)
       (case chunks file_paths chunk_size of
          Inl e \<Rightarrow> (Inl e, [])
        | Inr chs \<Rightarrow>
            upload_chunks
              (\<lambda>file_path. upload_to_litterbox c w (PyStr file_path) None duration timeout)
              time_sleep [] chs)"

section \<open>Deletion and album management\<close>

text \<open>
  The four operations share one shape: the token check, the form fields, one
  POST, \<open>response.raise_for_status()\<close>, all inside a \<open>try\<close> whose only clause is
  \<open>except aiohttp.ClientError as err: raise CatboxError(f"<prefix>{err}")\<close>.
\<close>

definition client_error_except :: "string \<Rightarrow> exn \<Rightarrow> exn" where
  "client_error_except prefix e =
     (if is_ClientError e then CatboxError (prefix @ str_exn e) else e)"

text \<open>
  \<^verbatim>\<open>
  self._check_userhash_value()
  fields = [("reqtype", "deletefiles"), ("userhash", self.userhash),
            ("files", " ".join(files))]
  async with aiohttp.ClientSession(timeout=aiohttp.ClientTimeout(total=timeout)) as session:
      async with session.post(self.api_url, data=form_data) as response:
          response.raise_for_status()
  \<close>
\<close>

definition delete_files_request :: "string \<Rightarrow> string list \<Rightarrow> int \<Rightarrow> request" where
  "delete_files_request h files timeout =
     \<lparr>req_url = api_url, req_timeout = Some timeout,
      req_fields = [(''reqtype'', Text ''deletefiles''),
                    (''userhash'', Text h),
                    (''files'', Text (join '' '' files))]\<rparr>"

definition delete_files ::
  "CatboxAsyncUploader \<Rightarrow> world \<Rightarrow> string list \<Rightarrow> int \<Rightarrow> unit io" where
  "delete_files c w files timeout =
     try_except (client_error_except ''Failed to delete files: '')
       (case check_userhash_value c of
          Inl e \<Rightarrow> (Inl e, [])
        | Inr h \<Rightarrow>
            (let req = delete_files_request h files timeout
             in (case http_post w req of
                   Inl e \<Rightarrow> (Inl e, [HttpPost req])
                 | Inr response \<Rightarrow> (raise_for_status response, [HttpPost req]))))"

text \<open>
  \<^verbatim>\<open>
  self._check_userhash_value()
  fields = [("reqtype", "createalbum"), ("userhash", self.userhash),
            ("title", title), ("desc", description),
            ("files", " ".join(" ".join([self.get_shortcode_from_url(url) for url in files])))]
  async with aiohttp.ClientSession() as session:
      async with session.post(self.api_url, data=form_data) as response:
          response.raise_for_status()
          response_text = await response.text()
          return response_text.strip()
  \<close>
  The outer \<open>join\<close> receives the string built by the inner one.
\<close>

definition create_album_request ::
  "string \<Rightarrow> string list \<Rightarrow> string \<Rightarrow> string \<Rightarrow> request" where
  "create_album_request h files title description =
     \<lparr>req_url = api_url, req_timeout = None,
      req_fields = [(''reqtype'', Text ''createalbum''),
                    (''userhash'', Text h),
                    (''title'', Text title),
                    (''desc'', Text description),
                    (''files'',
                     Text (join_str '' '' (join '' '' (map get_shortcode_from_url files))))]\<rparr>"

definition create_album ::
  "CatboxAsyncUploader \<Rightarrow> world \<Rightarrow> string list \<Rightarrow> string \<Rightarrow> string \<Rightarrow> string io" where
  "create_album c w files title description =
     try_except (client_error_except ''Failed to create album: '')
       (case check_userhash_value c of
          Inl e \<Rightarrow> (Inl e, [])
        | Inr h \<Rightarrow>
            (let req = create_album_request h files title description
             in (case http_post w req of
                   Inl e \<Rightarrow> (Inl e, [HttpPost req])
                 | Inr response \<Rightarrow>
                     (case raise_for_status response of
                        Inl e \<Rightarrow> (Inl e, [HttpPost req])
                      | Inr u \<Rightarrow>
                          (case resp_text response of
                             Inl e \<Rightarrow> (Inl e, [HttpPost req])
                           | Inr response_text \<Rightarrow>
                               (Inr (strip response_text), [HttpPost req]))))))"

text \<open>
  \<^verbatim>\<open>
  self._check_userhash_value()
  fields = [("reqtype", "editalbum"), ("userhash", self.userhash),
            ("short", shortcode), ("title", title), ("desc", description),
            ("files", " ".join([self.get_shortcode_from_url(url) for url in files]))]
  async with aiohttp.ClientSession() as session:
      async with session.post(self.api_url, data=form_data) as response:
          response.raise_for_status()
  \<close>
\<close>

definition edit_album_request ::
  "string \<Rightarrow> string \<Rightarrow> string list \<Rightarrow> string \<Rightarrow> string \<Rightarrow> request" where
  "edit_album_request h shortcode files title description =
     \<lparr>req_url = api_url, req_timeout = None,
      req_fields = [(''reqtype'', Text ''editalbum''),
                    (''userhash'', Text h),
                    (''short'', Text shortcode),
                    (''title'', Text title),
                    (''desc'', Text description),
                    (''files'', Text (join '' '' (map get_shortcode_from_url files)))]\<rparr>"

definition edit_album ::
  "CatboxAsyncUploader \<Rightarrow> world \<Rightarrow> string \<Rightarrow> string list \<Rightarrow> string \<Rightarrow> string \<Rightarrow> unit io" where
  "edit_album c w shortcode files title description =
     try_except (client_error_except ''Failed to edit album: '')
       (case check_userhash_value c of
          Inl e \<Rightarrow> (Inl e, [])
        | Inr h \<Rightarrow>
            (let req = edit_album_request h shortcode files title description
             in (case http_post w req of
                   Inl e \<Rightarrow> (Inl e, [HttpPost req])
                 | Inr response \<Rightarrow> (raise_for_status response, [HttpPost req]))))"

text \<open>
  \<^verbatim>\<open>
  self._check_userhash_value()
  fields = [("reqtype", "deletealbum"), ("userhash", self.userhash), ("short", shortcode)]
  async with aiohttp.ClientSession() as session:
      async with session.post(self.api_url, data=form_data) as response:
          response.raise_for_status()
  \<close>
\<close>

definition delete_album_request :: "string \<Rightarrow> string \<Rightarrow> request" where
  "delete_album_request h shortcode =
     \<lparr>req_url = api_url, req_timeout = None,
      req_fields = [(''reqtype'', Text ''deletealbum''),
                    (''userhash'', Text h),
                    (''short'', Text shortcode)]\<rparr>"

definition delete_album :: "CatboxAsyncUploader \<Rightarrow> world \<Rightarrow> string \<Rightarrow> unit io" where
  "delete_album c w shortcode =
     try_except (client_error_except ''Failed to delete album: '')
       (case check_userhash_value c of
          Inl e \<Rightarrow> (Inl e, [])
        | Inr h \<Rightarrow>
            (let req = delete_album_request h shortcode
             in (case http_post w req of
                   Inl e \<Rightarrow> (Inl e, [HttpPost req])
                 | Inr response \<Rightarrow> (raise_for_status response, [HttpPost req]))))"

section \<open>Observations on the effects\<close>

text \<open>The requests sent and the pauses made, read off the effects of a call.\<close>

fun posts :: "event list \<Rightarrow> request list" where
  "posts [] = []"
| "posts (HttpPost r # evs) = r # posts evs"
| "posts (e # evs) = posts evs"

fun sleeps :: "event list \<Rightarrow> real list" where
  "sleeps [] = []"
| "sleeps (Sleep d # evs) = d # sleeps evs"
| "sleeps (e # evs) = sleeps evs"

section \<open>Sample worlds\<close>

text \<open>
  Three worlds for the concrete evaluations. In \<open>served_world\<close> every file can be
  read and the service answers 200 with a URL made of the file name of the
  request, followed by a newline. In \<open>failing_world\<close> the service answers 500. In
  \<open>stalled_world\<close> no answer comes within the total timeout, which \<open>aiohttp\<close>
  reports as \<open>asyncio.TimeoutError\<close>.
\<close>

fun part_name :: "(string \<times> field_value) list \<Rightarrow> string" where
  "part_name [] = []"
| "part_name ((k, FilePart b (Some n) t) # fs) = n"
| "part_name (f # fs) = part_name fs"

definition served_world :: world where
  "served_world =
     \<lparr>aio_read = (\<lambda>p. Inr ''data''),
      http_post = (\<lambda>r. Inr \<lparr>resp_status = 200,
                             resp_text = Inr (''u/'' @ part_name (req_fields r) @ [CHR 0x0A]),
                             resp_error = []\<rparr>)\<rparr>"

definition failing_world :: world where
  "failing_world =
     \<lparr>aio_read = (\<lambda>p. Inr ''data''),
      http_post = (\<lambda>r. Inr \<lparr>resp_status = 500,
                             resp_text = Inr ''Internal Server Error'',
                             resp_error = ''500, message=Internal Server Error''\<rparr>)\<rparr>"

definition stalled_world :: world where
  "stalled_world =
     \<lparr>aio_read = (\<lambda>p. Inr ''data''),
      http_post = (\<lambda>r. Inl TimeoutError)\<rparr>"

text \<open>The URL that \<open>served_world\<close> gives for the upload of a path, stripped.\<close>

definition served_url :: "string \<Rightarrow> string" where
  "served_url p = ''u/'' @ last (split_char CHR ''/'' (replace_char (CHR 0x5C) CHR ''/'' p))"

section \<open>Facts about the string helpers\<close>

lemma split_char_nonempty: "split_char sep s \<noteq> []"
  by (induction s) (auto split: list.splits)

lemma last_split_char_no_sep: "sep \<notin> set (last (split_char sep s))"
proof (induction s)
  case Nil
  show ?case by simp
next
  case (Cons x xs)
  show ?case
  proof (cases "x = sep")
    case True
    with Cons show ?thesis by (simp add: split_char_nonempty)
  next
    case False
    obtain y ys where yys: "split_char sep xs = y # ys"
      using split_char_nonempty [of sep xs] by (cases "split_char sep xs") auto
    with Cons False show ?thesis by (cases ys) auto
  qed
qed

lemma length_split_char:
  "length (split_char sep s) = Suc (length (filter (\<lambda>c. c = sep) s))"
  by (induction s) (auto split: list.splits simp: split_char_nonempty)

lemma split_char_no_sep: "sep \<notin> set s \<Longrightarrow> split_char sep s = [s]"
  by (induction s) auto

lemma last_split_char_Cons:
  assumes "sep \<in> set xs"
  shows "last (split_char sep (x # xs)) = last (split_char sep xs)"
proof -
  have "filter (\<lambda>c. c = sep) xs \<noteq> []"
    using assms by (simp add: filter_empty_conv)
  then have "2 \<le> length (split_char sep xs)"
    by (cases "filter (\<lambda>c. c = sep) xs") (simp_all add: length_split_char)
  then obtain y z zs where "split_char sep xs = y # z # zs"
    by (cases "split_char sep xs"; cases "tl (split_char sep xs)") auto
  then show ?thesis by simp
qed

lemma last_split_char_suffix:
  "sep \<in> set s \<Longrightarrow> \<exists>pre. s = pre @ sep # last (split_char sep s)"
proof (induction s)
  case Nil
  then show ?case by simp
next
  case (Cons x xs)
  show ?case
  proof (cases "sep \<in> set xs")
    case True
    then obtain pre where pre: "xs = pre @ sep # last (split_char sep xs)"
      using Cons.IH by blast
    have "x # xs = (x # pre) @ sep # last (split_char sep (x # xs))"
      using pre last_split_char_Cons [OF True, of x] by simp
    then show ?thesis by blast
  next
    case False
    with Cons.prems have xs: "x = sep" by simp
    have "split_char sep xs = [xs]" using False by (rule split_char_no_sep)
    with xs have "x # xs = [] @ sep # last (split_char sep (x # xs))" by simp
    then show ?thesis by blast
  qed
qed

lemma startswith_set: "startswith s p \<Longrightarrow> set p \<subseteq> set s"
  unfolding startswith_def by (metis set_take_subset)

lemma slash_in_file_url: "CHR ''/'' \<in> set file_url"
  by (simp add: file_url_def)

lemma slash_in_album_url: "CHR ''/'' \<in> set album_url"
  by (simp add: album_url_def)

section \<open>Facts about chunking and the upload loop\<close>

lemma ceil_div_step:
  assumes "0 < k" and "0 < (m::nat)"
  shows "(m + k - 1) div k = Suc ((m - k + k - 1) div k)"
proof (cases "k < m")
  case True
  define a where "a = m - k + k - 1"
  have "m + k - 1 = a + k" using True assms by (simp add: a_def)
  moreover have "(a + k) div k = Suc (a div k)" using assms(1) by simp
  ultimately show ?thesis by (simp add: a_def)
next
  case False
  then have z: "m - k + k - 1 = k - 1" by arith
  have "(m + k - 1) div k = 1"
    using False assms by (intro div_nat_eqI) auto
  moreover have "(k - 1) div k = 0" using assms(1) by simp
  ultimately show ?thesis using z by simp
qed

lemma range_step_Cons: "0 < k \<Longrightarrow> i < n \<Longrightarrow> range_step i n k = i # range_step (i + k) n k"
  by (subst range_step.simps) simp

lemma range_step_Nil: "\<not> (0 < k \<and> i < n) \<Longrightarrow> range_step i n k = []"
  by (subst range_step.simps) simp

declare range_step.simps [simp del]

lemma length_range_step:
  "0 < k \<Longrightarrow> length (range_step i n k) = (n - i + k - 1) div k"
proof (induction i n k rule: range_step.induct)
  case (1 i n k)
  show ?case
  proof (cases "i < n")
    case True
    have "(n - i + k - 1) div k = Suc ((n - i - k + k - 1) div k)"
      using ceil_div_step [of k "n - i"] True 1(2) by simp
    moreover have "length (range_step (i + k) n k) = (n - (i + k) + k - 1) div k"
      using 1 True by blast
    ultimately show ?thesis
      using range_step_Cons [OF 1(2) True] by (simp only: length_Cons diff_diff_left)
  next
    case False
    then have "n - i + k - 1 < k" using 1(2) by simp
    then have "(n - i + k - 1) div k = 0" by simp
    moreover have "range_step i n k = []" using False by (intro range_step_Nil) simp
    ultimately show ?thesis by simp
  qed
qed

lemma nth_range_step:
  "j < length (range_step i n k) \<Longrightarrow> range_step i n k ! j = i + j * k"
proof (induction i n k arbitrary: j rule: range_step.induct)
  case (1 i n k)
  show ?case
  proof (cases "0 < k \<and> i < n")
    case True
    then have u: "range_step i n k = i # range_step (i + k) n k"
      by (simp add: range_step_Cons)
    show ?thesis
    proof (cases j)
      case 0
      with u show ?thesis by simp
    next
      case (Suc j')
      with 1(2) u have "j' < length (range_step (i + k) n k)" by simp
      from 1(1) [OF True this] u Suc show ?thesis by simp
    qed
  next
    case False
    then have "range_step i n k = []" by (rule range_step_Nil)
    with 1(2) show ?thesis by simp
  qed
qed

lemma range_step_bound: "x \<in> set (range_step i n k) \<Longrightarrow> x < n"
proof (induction i n k rule: range_step.induct)
  case (1 i n k)
  show ?case
  proof (cases "0 < k \<and> i < n")
    case True
    then have u: "range_step i n k = i # range_step (i + k) n k"
      by (simp add: range_step_Cons)
    from 1(2) u have "x = i \<or> x \<in> set (range_step (i + k) n k)" by simp
    then show ?thesis using 1(1) [OF True] True by blast
  next
    case False
    then have "range_step i n k = []" by (rule range_step_Nil)
    with 1(2) show ?thesis by simp
  qed
qed


lemma concat_chunks:
  "0 < k \<Longrightarrow> n = length xs \<Longrightarrow>
   concat (map (\<lambda>i. take k (drop i xs)) (range_step i n k)) = drop i xs"
proof (induction i n k rule: range_step.induct)
  case (1 i n k)
  show ?case
  proof (cases "i < n")
    case True
    have u: "range_step i n k = i # range_step (i + k) n k"
      using 1(2) True by (rule range_step_Cons)
    have ih: "concat (map (\<lambda>i. take k (drop i xs)) (range_step (i + k) n k)) = drop (i + k) xs"
      using 1 True by blast
    have "take k (drop i xs) @ drop (i + k) xs = drop i xs"
      using append_take_drop_id [of k "drop i xs"] by (simp add: add.commute)
    with u ih show ?thesis by simp
  next
    case False
    then have "range_step i n k = []" by (intro range_step_Nil) simp
    with False 1(3) show ?thesis by simp
  qed
qed

lemma gather_success:
  "\<forall>p\<in>set ps. fst (up p) = Inr (f p) \<Longrightarrow> fst (gather (map up ps)) = Inr (map f ps)"
proof (induction ps)
  case Nil
  show ?case by simp
next
  case (Cons p ps)
  obtain r ev where up: "up p = (r, ev)" by (cases "up p")
  with Cons.prems have r: "r = Inr (f p)" by simp
  have "fst (gather (map up ps)) = Inr (map f ps)" using Cons by simp
  then obtain evs where "gather (map up ps) = (Inr (map f ps), evs)"
    by (cases "gather (map up ps)") simp
  with up r show ?case by simp
qed

lemma snd_gather: "snd (gather ts) = concat (map snd ts)"
proof (induction ts)
  case Nil
  show ?case by simp
next
  case (Cons t ts)
  obtain r ev where t: "t = (r, ev)" by (cases t)
  obtain rs evs where g: "gather ts = (rs, evs)" by (cases "gather ts")
  with Cons t show ?case by simp
qed

lemma upload_chunks_success:
  "\<forall>p\<in>set (concat chs). fst (up p) = Inr (f p) \<Longrightarrow>
   fst (upload_chunks up s acc chs) = Inr (acc @ map f (concat chs))"
proof (induction chs arbitrary: acc)
  case Nil
  show ?case by simp
next
  case (Cons ch chs)
  have "fst (gather (map up ch)) = Inr (map f ch)"
    using Cons.prems by (intro gather_success) simp
  then obtain ev where g: "gather (map up ch) = (Inr (map f ch), ev)"
    by (cases "gather (map up ch)") simp
  have "fst (upload_chunks up s (acc @ map f ch) chs) = Inr ((acc @ map f ch) @ map f (concat chs))"
    using Cons.prems by (intro Cons.IH) simp
  then obtain ev' where
    "upload_chunks up s (acc @ map f ch) chs = (Inr ((acc @ map f ch) @ map f (concat chs)), ev')"
    by (cases "upload_chunks up s (acc @ map f ch) chs") simp
  with g show ?case by simp
qed

lemma chunks_positive:
  assumes "1 \<le> chunk_size"
  shows "\<exists>chs. chunks file_paths chunk_size = Inr chs \<and>
           int (length chs) = (int (length file_paths) + chunk_size - 1) div chunk_size \<and>
           concat chs = file_paths \<and>
           (\<forall>j<length chs.
              1 \<le> length (chs ! j) \<and> int (length (chs ! j)) \<le> chunk_size \<and>
              (j + 1 < length chs \<longrightarrow> int (length (chs ! j)) = chunk_size))"
proof -
  define k where "k = nat chunk_size"
  define n where "n = length file_paths"
  define chs where "chs = map (\<lambda>i. take k (drop i file_paths)) (range_step 0 n k)"
  have k: "0 < k" and ck: "chunk_size = int k" using assms by (simp_all add: k_def)
  have c: "chunks file_paths chunk_size = Inr chs"
    using assms by (simp add: chunks_def chs_def k_def n_def)
  have len: "length chs = (n + k - 1) div k"
    using length_range_step [OF k, of 0 n] by (simp add: chs_def)
  have "int ((n + k - 1) div k) = (int n + int k - 1) div int k"
    using k by (simp add: zdiv_int of_nat_diff)
  with len have l: "int (length chs) = (int (length file_paths) + chunk_size - 1) div chunk_size"
    by (simp add: ck n_def)
  have cc: "concat chs = file_paths"
    using concat_chunks [OF k, of n file_paths 0] by (simp add: chs_def n_def)
  have sz: "1 \<le> length (chs ! j) \<and> int (length (chs ! j)) \<le> chunk_size \<and>
            (j + 1 < length chs \<longrightarrow> int (length (chs ! j)) = chunk_size)"
    if j: "j < length chs" for j
  proof -
    have jr: "j < length (range_step 0 n k)" using j by (simp add: chs_def)
    then have nth: "range_step 0 n k ! j = j * k" using nth_range_step [of j 0 n k] by simp
    have "range_step 0 n k ! j \<in> set (range_step 0 n k)" using jr by simp
    then have b: "j * k < n" using range_step_bound nth by metis
    have cj: "chs ! j = take k (drop (j * k) file_paths)"
      using jr nth by (simp add: chs_def)
    then have lj: "length (chs ! j) = min k (n - j * k)" by (simp add: n_def min.commute)
    have full: "length (chs ! j) = k" if "j + 1 < length chs"
    proof -
      have jr': "Suc j < length (range_step 0 n k)" using that by (simp add: chs_def)
      then have "range_step 0 n k ! Suc j = Suc j * k" using nth_range_step [of "Suc j" 0 n k] by simp
      moreover have "range_step 0 n k ! Suc j \<in> set (range_step 0 n k)" using jr' by simp
      ultimately have "Suc j * k < n" using range_step_bound by metis
      then have "k \<le> n - j * k" by simp
      with lj show ?thesis by simp
    qed
    from lj b k full show ?thesis by (auto simp: ck)
  qed
  from c l cc sz show ?thesis by blast
qed

section \<open>Shortcode extraction: the claims\<close>

text \<open>
  C3. For every string \<open>url\<close>: when \<open>url\<close> starts with the file-hosting base URL or
  with the album-hosting base URL, \<open>get_shortcode_from_url\<close> returns the
  substring after the last \<open>/\<close> of \<open>url\<close> (the result holds no \<open>/\<close> and \<open>url\<close> is
  some prefix, a \<open>/\<close>, and the result); otherwise it returns \<open>url\<close> unchanged.
\<close>

theorem get_shortcode_from_url_spec:
  "(startswith url file_url \<or> startswith url album_url \<longrightarrow>
      CHR ''/'' \<notin> set (get_shortcode_from_url url) \<and>
      (\<exists>pre. url = pre @ CHR ''/'' # get_shortcode_from_url url)) \<and>
   (\<not> (startswith url file_url \<or> startswith url album_url) \<longrightarrow>
      get_shortcode_from_url url = url)"
proof -
  have "CHR ''/'' \<in> set url" if "startswith url file_url \<or> startswith url album_url"
    using that startswith_set slash_in_file_url slash_in_album_url by blast
  then show ?thesis
    by (auto simp: get_shortcode_from_url_def last_split_char_no_sep
             dest: last_split_char_suffix)
qed

theorem get_shortcode_from_url_spec_witness:
  "startswith ''https://files.catbox.moe/abc123'' file_url \<and>
   get_shortcode_from_url ''https://files.catbox.moe/abc123'' = ''abc123'' \<and>
   CHR ''/'' \<notin> set (get_shortcode_from_url ''https://files.catbox.moe/abc123'') \<and>
   (\<exists>pre. ''https://files.catbox.moe/abc123''
            = pre @ CHR ''/'' # get_shortcode_from_url ''https://files.catbox.moe/abc123'') \<and>
   \<not> (startswith ''https://example.org/a/b'' file_url \<or>
      startswith ''https://example.org/a/b'' album_url) \<and>
   get_shortcode_from_url ''https://example.org/a/b'' = ''https://example.org/a/b''"
proof -
  have s: "startswith ''https://files.catbox.moe/abc123'' file_url"
    by (simp add: startswith_def file_url_def)
  have n: "\<not> (startswith ''https://example.org/a/b'' file_url \<or>
      startswith ''https://example.org/a/b'' album_url)"
    by (simp add: startswith_def file_url_def album_url_def)
  have v: "get_shortcode_from_url ''https://files.catbox.moe/abc123'' = ''abc123''"
    by (simp add: get_shortcode_from_url_def startswith_def file_url_def)
  show ?thesis
    using s n v
      get_shortcode_from_url_spec [of "''https://files.catbox.moe/abc123''"]
      get_shortcode_from_url_spec [of "''https://example.org/a/b''"]
    by blast
qed

lemma get_shortcode_from_url_examples:
  "get_shortcode_from_url ''https://files.catbox.moe/abc123'' = ''abc123''"
  "get_shortcode_from_url ''https://catbox.moe/c/xyz789'' = ''xyz789''"
  "get_shortcode_from_url ''https://example.org/a/b'' = ''https://example.org/a/b''"
  by (simp_all add: get_shortcode_from_url_def startswith_def file_url_def album_url_def)

text \<open>
  C9. The shortcode helper is idempotent: applying it twice gives what applying
  it once gives, for every string.
\<close>

theorem get_shortcode_from_url_idem:
  "get_shortcode_from_url (get_shortcode_from_url url) = get_shortcode_from_url url"
proof (cases "startswith url file_url \<or> startswith url album_url")
  case True
  let ?r = "last (split_char CHR ''/'' url)"
  have r: "get_shortcode_from_url url = ?r"
    using True by (simp add: get_shortcode_from_url_def)
  have "CHR ''/'' \<notin> set ?r" by (rule last_split_char_no_sep)
  then have "\<not> startswith ?r file_url" and "\<not> startswith ?r album_url"
    using startswith_set slash_in_file_url slash_in_album_url by blast+
  then have "get_shortcode_from_url ?r = ?r"
    by (simp add: get_shortcode_from_url_def)
  with r show ?thesis by simp
next
  case False
  then have "get_shortcode_from_url url = url"
    by (simp add: get_shortcode_from_url_def)
  then show ?thesis by simp
qed

section \<open>Facts about the effects\<close>

lemma sleeps_append: "sleeps (xs @ ys) = sleeps xs @ sleeps ys"
  by (induction xs rule: sleeps.induct) simp_all

lemma posts_append: "posts (xs @ ys) = posts xs @ posts ys"
  by (induction xs rule: posts.induct) simp_all

lemma sleeps_get_content: "sleeps (snd (get_content w x)) = []"
  by (cases x) simp_all

lemma sleeps_upload_file_body: "sleeps (snd (upload_file_body c w x timeout name)) = []"
proof -
  have g: "sleeps ev = []" if "get_content w y = (r, ev)" for y r ev
    using sleeps_get_content [of w y] that by simp
  show ?thesis
    unfolding upload_file_body_def Let_def
    by (auto simp: sleeps_append dest: g split: sum.splits prod.splits)
qed

lemma snd_try_except: "snd (try_except h m) = snd m"
  by (auto simp: try_except_def split: prod.splits sum.splits)

lemma fst_try_except_Inr: "fst m = Inr v \<Longrightarrow> fst (try_except h m) = Inr v"
  by (auto simp: try_except_def split: prod.splits sum.splits)

lemma sleeps_upload_file: "sleeps (snd (upload_file c w x timeout name)) = []"
  by (simp add: upload_file_def snd_try_except sleeps_upload_file_body)

lemma sleeps_gather:
  "\<forall>p\<in>set ps. sleeps (snd (up p)) = [] \<Longrightarrow> sleeps (snd (gather (map up ps))) = []"
  by (induction ps) (simp_all add: snd_gather sleeps_append)

lemma sleeps_upload_chunks:
  "\<forall>p\<in>set (concat chs). fst (up p) = Inr (f p) \<Longrightarrow>
   \<forall>p\<in>set (concat chs). sleeps (snd (up p)) = [] \<Longrightarrow>
   sleeps (snd (upload_chunks up s acc chs)) = replicate (length chs) s"
proof (induction chs arbitrary: acc)
  case Nil
  show ?case by simp
next
  case (Cons ch chs)
  have "fst (gather (map up ch)) = Inr (map f ch)"
    using Cons.prems(1) by (intro gather_success) simp
  moreover have "sleeps (snd (gather (map up ch))) = []"
    using Cons.prems(2) by (intro sleeps_gather) simp
  ultimately obtain ev where g: "gather (map up ch) = (Inr (map f ch), ev)" and e: "sleeps ev = []"
    by (cases "gather (map up ch)") simp
  have ih: "sleeps (snd (upload_chunks up s (acc @ map f ch) chs)) = replicate (length chs) s"
    using Cons.prems by (intro Cons.IH) simp_all
  obtain r ev' where u: "upload_chunks up s (acc @ map f ch) chs = (r, ev')"
    by (cases "upload_chunks up s (acc @ map f ch) chs")
  with ih have "sleeps ev' = replicate (length chs) s" by simp
  with g e u show ?case by (simp add: sleeps_append)
qed

section \<open>Album uploads: the claims\<close>

text \<open>
  C1. For every list of \<open>N\<close> file paths and every chunk size \<open>C \<ge> 1\<close>, \<open>upload_album\<close>
  partitions the input into \<open>ceil(N/C)\<close> chunks, each of size \<open>C\<close> except possibly a
  smaller (non-empty) last one, in input order; one pause is made per chunk; and
  when every per-file \<open>upload_file\<close> call succeeds and returns its URL, the
  returned list has length \<open>N\<close> and its \<open>i\<close>-th element is the URL produced for the
  \<open>i\<close>-th input path.
\<close>

theorem upload_album_chunks_and_order:
  assumes "1 \<le> chunk_size"
    and "\<forall>p\<in>set file_paths. fst (upload_file c w (PyStr p) timeout None) = Inr (url_of p)"
  shows "\<exists>chs urls.
           chunks file_paths chunk_size = Inr chs \<and>
           int (length chs) = (int (length file_paths) + chunk_size - 1) div chunk_size \<and>
           concat chs = file_paths \<and>
           (\<forall>j<length chs.
              1 \<le> length (chs ! j) \<and> int (length (chs ! j)) \<le> chunk_size \<and>
              (j + 1 < length chs \<longrightarrow> int (length (chs ! j)) = chunk_size)) \<and>
           sleeps (snd (upload_album c w file_paths timeout chunk_size time_sleep))
             = replicate (length chs) time_sleep \<and>
           fst (upload_album c w file_paths timeout chunk_size time_sleep) = Inr urls \<and>
           urls = map url_of file_paths \<and>
           length urls = length file_paths \<and>
           (\<forall>i<length file_paths. urls ! i = url_of (file_paths ! i))"
proof -
  let ?up = "\<lambda>file_path. upload_file c w (PyStr file_path) timeout None"
  obtain chs where c: "chunks file_paths chunk_size = Inr chs"
    and l: "int (length chs) = (int (length file_paths) + chunk_size - 1) div chunk_size"
    and cc: "concat chs = file_paths"
    and sz: "\<forall>j<length chs.
              1 \<le> length (chs ! j) \<and> int (length (chs ! j)) \<le> chunk_size \<and>
              (j + 1 < length chs \<longrightarrow> int (length (chs ! j)) = chunk_size)"
    using chunks_positive [OF assms(1), of file_paths] by blast
  have ok: "\<forall>p\<in>set (concat chs). fst (?up p) = Inr (url_of p)"
    using assms(2) cc by simp
  have ns: "\<forall>p\<in>set (concat chs). sleeps (snd (?up p)) = []"
    by (simp add: sleeps_upload_file)
  have "fst (upload_chunks ?up time_sleep [] chs) = Inr ([] @ map url_of (concat chs))"
    using ok by (rule upload_chunks_success)
  then have r: "fst (upload_album c w file_paths timeout chunk_size time_sleep)
                  = Inr (map url_of file_paths)"
    using c cc by (simp add: upload_album_def fst_try_except_Inr)
  have "sleeps (snd (upload_chunks ?up time_sleep [] chs)) = replicate (length chs) time_sleep"
    using ok ns by (rule sleeps_upload_chunks)
  then have s: "sleeps (snd (upload_album c w file_paths timeout chunk_size time_sleep))
                  = replicate (length chs) time_sleep"
    using c by (simp add: upload_album_def snd_try_except)
  from c l cc sz r s show ?thesis by simp
qed

lemmas upload_file_eval = upload_file_def upload_file_body_def try_except_def
  check_userhash_value_def upload_file_request_def upload_file_except_def Let_def strip_def
  py_isspace_def replace_char_def

lemmas litterbox_eval = upload_to_litterbox_def upload_to_litterbox_body_def try_except_def
  litterbox_request_def upload_to_litterbox_except_def Let_def strip_def py_isspace_def

theorem upload_album_chunks_and_order_witness:
  "(1::int) \<le> 2 \<and>
   fst (upload_file \<lparr>userhash = Some ''h''\<rparr> served_world (PyStr ''a.png'') 30 None)
     = Inr (served_url ''a.png'') \<and>
   fst (upload_file \<lparr>userhash = Some ''h''\<rparr> served_world (PyStr ''d/b.png'') 30 None)
     = Inr (served_url ''d/b.png'') \<and>
   fst (upload_file \<lparr>userhash = Some ''h''\<rparr> served_world (PyStr ''c.png'') 30 None)
     = Inr (served_url ''c.png'') \<and>
   fst (upload_album \<lparr>userhash = Some ''h''\<rparr> served_world
          [''a.png'', ''d/b.png'', ''c.png''] 30 2 (3 / 2))
     = Inr [''u/a.png'', ''u/b.png'', ''u/c.png''] \<and>
   sleeps (snd (upload_album \<lparr>userhash = Some ''h''\<rparr> served_world
                  [''a.png'', ''d/b.png'', ''c.png''] 30 2 (3 / 2)))
     = [3 / 2, 3 / 2]"
proof -
  have h1: "(1::int) \<le> 2" by simp
  have h2: "\<forall>p\<in>set [''a.png'', ''d/b.png'', ''c.png''].
      fst (upload_file \<lparr>userhash = Some ''h''\<rparr> served_world (PyStr p) 30 None)
        = Inr (served_url p)"
    by (simp add: upload_file_eval served_world_def served_url_def)
  obtain chs :: "string list list" and urls where
    l: "int (length chs) = (int (length [''a.png'', ''d/b.png'', ''c.png'']) + 2 - 1) div 2"
    and s: "sleeps (snd (upload_album \<lparr>userhash = Some ''h''\<rparr> served_world
                  [''a.png'', ''d/b.png'', ''c.png''] 30 2 (3 / 2)))
              = replicate (length chs) (3 / 2)"
    and r: "fst (upload_album \<lparr>userhash = Some ''h''\<rparr> served_world
                  [''a.png'', ''d/b.png'', ''c.png''] 30 2 (3 / 2)) = Inr urls"
    and u: "urls = map served_url [''a.png'', ''d/b.png'', ''c.png'']"
    using upload_album_chunks_and_order [OF h1 h2, of "3 / 2"]
    by (elim exE conjE) (rule that, assumption+)
  from l have "length chs = 2" by simp
  then have "replicate (length chs) (3 / 2 :: real) = [3 / 2, 3 / 2]"
    by (simp add: numeral_2_eq_2)
  moreover have "urls = [''u/a.png'', ''u/b.png'', ''u/c.png'']"
    using u by (simp add: served_url_def replace_char_def)
  ultimately show ?thesis using h1 h2 s r by simp
qed

text \<open>
  C10 as stated, for every chunk size, fails: with an empty path list and a chunk
  size of zero, \<open>range(0, 0, 0)\<close> raises \<open>ValueError\<close> and \<open>upload_album\<close> raises it
  to the caller instead of returning the empty list.
\<close>

theorem upload_album_empty_zero_chunk_size:
  "upload_album \<lparr>userhash = None\<rparr> served_world [] 30 0 (3 / 2)
     = (Inl (ValueError ''range() arg 3 must not be zero''), [])"
  by (simp add: upload_album_def chunks_def try_except_def album_except_def)

text \<open>
  C10, amended. With an empty path list and a chunk size other than zero (the
  default 50 among them), \<open>upload_album\<close> and \<open>upload_album_to_litterbox\<close> return the
  empty list and perform no effect at all: no file read, no request, no pause.
  No token is checked: the client is arbitrary, so the token may be absent.
\<close>

theorem upload_album_empty:
  assumes "chunk_size \<noteq> 0"
  shows "upload_album c w [] timeout chunk_size time_sleep = (Inr [], []) \<and>
         upload_album_to_litterbox c w [] timeout duration chunk_size time_sleep = (Inr [], [])"
proof -
  have "range_step 0 0 (nat chunk_size) = []" by (intro range_step_Nil) simp
  then have "chunks ([]::string list) chunk_size = Inr []"
    using assms by (simp add: chunks_def)
  then show ?thesis
    by (simp add: upload_album_def upload_album_to_litterbox_def try_except_def)
qed

theorem upload_album_empty_witness:
  "default_album_chunk_size \<noteq> 0 \<and>
   upload_album \<lparr>userhash = None\<rparr> served_world [] default_timeout
     default_album_chunk_size default_album_time_sleep = (Inr [], []) \<and>
   upload_album_to_litterbox \<lparr>userhash = None\<rparr> served_world [] default_timeout H1
     default_album_chunk_size default_album_time_sleep = (Inr [], [])"
proof -
  have h: "default_album_chunk_size \<noteq> 0" by (simp add: default_album_chunk_size_def)
  show ?thesis
    using h upload_album_empty [OF h, of "\<lparr>userhash = None\<rparr>" served_world default_timeout
      default_album_time_sleep H1]
    by simp
qed

section \<open>The token check: the claim\<close>

text \<open>
  C2. Every token-requiring operation (\<open>upload_file\<close>, \<open>delete_files\<close>,
  \<open>create_album\<close>, \<open>edit_album\<close>, \<open>delete_album\<close>) called on a client whose token is
  \<open>None\<close> raises the missing-token error, \<open>CatboxError("Userhash is required.")\<close>,
  and performs no effect: no request is sent (and no file is read).
\<close>

theorem missing_token_fails_before_any_request:
  assumes "userhash c = None"
  shows "upload_file c w file_path_or_bytes timeout file_name
           = (Inl (CatboxError ''Userhash is required.''), []) \<and>
         delete_files c w files timeout
           = (Inl (CatboxError ''Userhash is required.''), []) \<and>
         create_album c w files title description
           = (Inl (CatboxError ''Userhash is required.''), []) \<and>
         edit_album c w shortcode files title description
           = (Inl (CatboxError ''Userhash is required.''), []) \<and>
         delete_album c w shortcode
           = (Inl (CatboxError ''Userhash is required.''), [])"
  using assms
  by (simp add: upload_file_def upload_file_body_def delete_files_def create_album_def
        edit_album_def delete_album_def try_except_def check_userhash_value_def
        upload_file_except_def client_error_except_def)

theorem missing_token_fails_before_any_request_witness:
  "userhash \<lparr>userhash = None\<rparr> = None \<and>
   upload_file \<lparr>userhash = None\<rparr> served_world (PyStr ''a.png'') 30 None
     = (Inl (CatboxError ''Userhash is required.''), []) \<and>
   delete_files \<lparr>userhash = None\<rparr> served_world [''a.png''] 30
     = (Inl (CatboxError ''Userhash is required.''), []) \<and>
   create_album \<lparr>userhash = None\<rparr> served_world [''a.png''] ''t'' ''d''
     = (Inl (CatboxError ''Userhash is required.''), []) \<and>
   edit_album \<lparr>userhash = None\<rparr> served_world ''s'' [''a.png''] ''t'' ''d''
     = (Inl (CatboxError ''Userhash is required.''), []) \<and>
   delete_album \<lparr>userhash = None\<rparr> served_world ''s''
     = (Inl (CatboxError ''Userhash is required.''), []) \<and>
   posts (snd (upload_file \<lparr>userhash = None\<rparr> served_world (PyStr ''a.png'') 30 None)) = []"
proof -
  have h: "userhash \<lparr>userhash = None\<rparr> = None" by simp
  show ?thesis
    using h missing_token_fails_before_any_request
      [OF h, of served_world "PyStr ''a.png''" 30 None "[''a.png'']" "''t''" "''d''" "''s''"]
    by simp
qed

section \<open>Non-200 responses: the claim\<close>

text \<open>
  What each upload operation does with a response whose status is not 200, in
  any world: \<open>upload_file\<close> raises \<open>CatboxError\<close>, \<open>upload_to_litterbox\<close> raises the
  built-in \<open>Exception\<close>, which no \<open>except\<close> clause of the function catches.
\<close>

lemma upload_file_non_200:
  assumes "userhash c = Some h"
    and "prepare_content x name = Inr (n, y)"
    and "get_content w y = (Inr data, ev)"
    and "http_post w (upload_file_request h data n timeout) = Inr r"
    and "resp_status r \<noteq> 200"
  shows "fst (upload_file c w x timeout name)
           = Inl (CatboxError ''Failed to upload file to Catbox.'')"
  using assms
  by (simp add: upload_file_def upload_file_body_def try_except_def check_userhash_value_def
        upload_file_except_def Let_def)

lemma upload_to_litterbox_non_200:
  assumes "get_content w x = (Inr data, ev)"
    and "http_post w (litterbox_request duration data name timeout) = Inr r"
    and "resp_status r \<noteq> 200"
  shows "fst (upload_to_litterbox c w x name duration timeout)
           = Inl (Exception ''Failed to upload file to Catbox.'')"
  using assms
  by (simp add: upload_to_litterbox_def upload_to_litterbox_body_def try_except_def
        upload_to_litterbox_except_def Let_def)

lemma upload_file_status_500:
  "upload_file \<lparr>userhash = Some ''h''\<rparr> failing_world (PyStr ''a.png'') 30 None
     = (Inl (CatboxError ''Failed to upload file to Catbox.''),
        [FileRead ''a.png'', HttpPost (upload_file_request ''h'' ''data'' (Some ''a.png'') 30)])"
  by (simp add: upload_file_eval failing_world_def)

text \<open>
  C4. A response with a status other than 200 makes both upload operations fail
  with the generic upload error, an instance of the base service error. The
  code does so in \<open>upload_file\<close> only: evaluated on a service that answers 500,
  \<open>upload_to_litterbox\<close> raises the built-in \<open>Exception\<close>, which is not a
  \<open>CatboxError\<close>.
\<close>

theorem upload_to_litterbox_status_500:
  "upload_to_litterbox \<lparr>userhash = None\<rparr> failing_world (PyStr ''a.png'') (Some ''a.png'') H1 30
     = (Inl (Exception ''Failed to upload file to Catbox.''),
        [FileRead ''a.png'', HttpPost (litterbox_request H1 ''data'' (Some ''a.png'') 30)]) \<and>
   \<not> is_CatboxError (Exception ''Failed to upload file to Catbox.'')"
  by (simp add: litterbox_eval failing_world_def)

section \<open>Byte buffers without a file name: the claim\<close>

text \<open>
  \<open>upload_file\<close> on \<open>bytes\<close> with no file name raises a \<open>CatboxError\<close> and performs
  no effect, in any world and for any client. \<open>upload_to_litterbox\<close> on the same
  input sends its request, in any world, with the \<open>filename\<close> argument \<open>None\<close>.
\<close>

lemma upload_file_bytes_without_name:
  "upload_file c w (PyBytes b) timeout None
     = (Inl (CatboxError (if userhash c = None then ''Userhash is required.''
                          else ''Need to set file_name'')), [])"
  by (cases "userhash c")
     (simp_all add: upload_file_def upload_file_body_def try_except_def
        check_userhash_value_def upload_file_except_def)

lemma upload_to_litterbox_bytes_sends:
  "posts (snd (upload_to_litterbox c w (PyBytes b) None duration timeout))
     = [litterbox_request duration b None timeout]"
  by (auto simp: upload_to_litterbox_def upload_to_litterbox_body_def try_except_def Let_def
           split: sum.splits)

text \<open>
  C5. Every upload operation given a byte buffer and no file name fails with the
  configuration error before any network call. The code does so in
  \<open>upload_file\<close> only: \<open>upload_to_litterbox\<close> never calls \<open>_prepare_content\<close>;
  evaluated on \<open>bytes\<close> with no name it posts the form and returns the URL of the
  response.
\<close>

theorem upload_to_litterbox_bytes_without_name:
  "upload_to_litterbox \<lparr>userhash = None\<rparr> served_world (PyBytes ''xyz'') None H1 30
     = (Inr ''u/'',
        [HttpPost \<lparr>req_url = ''https://catbox.moe/user/api.php'', req_timeout = Some 30,
                   req_fields = [(''reqtype'', Text ''fileupload''),
                                 (''time'', Text ''1h''),
                                 (''fileToUpload'',
                                  FilePart ''xyz'' None ''application/octet-stream'')]\<rparr>])"
  by (simp add: litterbox_eval served_world_def api_url_def)

section \<open>Timeouts: the claim\<close>

text \<open>
  A timeout raised inside \<open>upload_file\<close> or \<open>upload_to_litterbox\<close> leaves the
  function as \<open>CatboxTimeoutError\<close>, in any world. \<open>delete_files\<close> has no clause for
  \<open>asyncio.TimeoutError\<close>: it leaves the function as it is.
\<close>

lemma delete_files_timeout_general:
  assumes "userhash c = Some h"
    and "http_post w (delete_files_request h files timeout) = Inl TimeoutError"
  shows "fst (delete_files c w files timeout) = Inl TimeoutError"
  using assms
  by (simp add: delete_files_def try_except_def check_userhash_value_def
        client_error_except_def Let_def)

lemma upload_file_timeout:
  assumes "fst (upload_file_body c w x timeout name) = Inl e" and "is_TimeoutError e"
  shows "fst (upload_file c w x timeout name)
           = Inl (CatboxTimeoutError
                    (''Upload request timed out after '' @ py_str_int timeout @ '' seconds.''))"
  using assms
  by (cases "upload_file_body c w x timeout name")
     (simp add: upload_file_def try_except_def upload_file_except_def)

lemma upload_to_litterbox_timeout:
  assumes "fst (upload_to_litterbox_body w x name duration timeout) = Inl e"
    and "is_TimeoutError e"
  shows "fst (upload_to_litterbox c w x name duration timeout)
           = Inl (CatboxTimeoutError
                    (''Upload to Litterbox timed out after '' @ py_str_int timeout
                      @ '' seconds.''))"
  using assms
  by (cases "upload_to_litterbox_body w x name duration timeout")
     (simp add: upload_to_litterbox_def try_except_def upload_to_litterbox_except_def)

lemma upload_file_stalled:
  "fst (upload_file \<lparr>userhash = Some ''h''\<rparr> stalled_world (PyStr ''a.png'') 30 None)
     = Inl (CatboxTimeoutError ''Upload request timed out after 30 seconds.'')"
  by (simp add: upload_file_eval stalled_world_def py_str_int_def digit_char_def)

lemma upload_album_stalled:
  "fst (upload_album \<lparr>userhash = Some ''h''\<rparr> stalled_world [''a.png'', ''b.png'', ''c.png'']
          30 2 (3 / 2))
     = Inl (CatboxTimeoutError ''Upload request timed out after 30 seconds.'') \<and>
   sleeps (snd (upload_album \<lparr>userhash = Some ''h''\<rparr> stalled_world
                  [''a.png'', ''b.png'', ''c.png''] 30 2 (3 / 2))) = [] \<and>
   length (posts (snd (upload_album \<lparr>userhash = Some ''h''\<rparr> stalled_world
                  [''a.png'', ''b.png'', ''c.png''] 30 2 (3 / 2)))) = 2"
proof -
  have r: "range_step 0 (Suc (Suc (Suc 0))) 2 = [0, 2]"
    by (simp add: range_step_Cons range_step_Nil)
  have c: "chunks [''a.png'', ''b.png'', ''c.png''] 2 = Inr [[''a.png'', ''b.png''], [''c.png'']]"
    by (simp add: chunks_def r)
  show ?thesis
    by (simp add: upload_album_def c upload_file_eval stalled_world_def py_str_int_def
          digit_char_def album_except_def)
qed

text \<open>
  C7. For every operation that takes a timeout, a request exceeding it surfaces
  the timeout error of the taxonomy. The code does so in the uploads only:
  evaluated on a service that does not answer within the timeout, \<open>delete_files\<close>
  raises \<open>asyncio.TimeoutError\<close> itself, which is not a \<open>CatboxError\<close>.
\<close>

theorem delete_files_timeout:
  "delete_files \<lparr>userhash = Some ''h''\<rparr> stalled_world [''a.png''] 30
     = (Inl TimeoutError, [HttpPost (delete_files_request ''h'' [''a.png''] 30)]) \<and>
   \<not> is_CatboxError TimeoutError"
  by (simp add: delete_files_def try_except_def check_userhash_value_def
        client_error_except_def stalled_world_def Let_def)

section \<open>The error taxonomy: the claim\<close>

text \<open>
  C6. Every error an operation raises to the caller is an instance of
  \<open>CatboxError\<close>. The code breaks this: \<open>upload_to_litterbox\<close> raises the built-in
  \<open>Exception\<close> on a status other than 200, and \<open>delete_files\<close> lets
  \<open>asyncio.TimeoutError\<close> through.
\<close>

theorem exception_outside_taxonomy_escapes:
  "fst (upload_to_litterbox \<lparr>userhash = Some ''h''\<rparr> failing_world (PyBytes ''xyz'')
          (Some ''x.bin'') H24 30)
     = Inl (Exception ''Failed to upload file to Catbox.'') \<and>
   \<not> is_CatboxError (Exception ''Failed to upload file to Catbox.'') \<and>
   fst (delete_files \<lparr>userhash = Some ''h''\<rparr> stalled_world [''x.bin''] 30) = Inl TimeoutError \<and>
   \<not> is_CatboxError TimeoutError"
  by (simp add: litterbox_eval failing_world_def stalled_world_def delete_files_def
        check_userhash_value_def client_error_except_def)

section \<open>The files field of an album: the claim\<close>

text \<open>
  The \<open>files\<close> field that each album operation submits, in any world: \<open>edit_album\<close>
  joins the shortcodes with spaces; \<open>create_album\<close> joins them and then joins the
  characters of the result with spaces again. On success \<open>create_album\<close> returns
  the stripped body of the response.
\<close>

lemma edit_album_files_field:
  assumes "userhash c = Some h"
  shows "map (\<lambda>r. map_of (req_fields r) ''files'')
           (posts (snd (edit_album c w shortcode files title description)))
         = [Some (Text (join '' '' (map get_shortcode_from_url files)))]"
  using assms
  by (auto simp: edit_album_def edit_album_request_def try_except_def check_userhash_value_def
        Let_def split: sum.splits)

lemma create_album_files_field_general:
  assumes "userhash c = Some h"
  shows "map (\<lambda>r. map_of (req_fields r) ''files'')
           (posts (snd (create_album c w files title description)))
         = [Some (Text (join_str '' '' (join '' '' (map get_shortcode_from_url files))))]"
  using assms
  by (auto simp: create_album_def create_album_request_def try_except_def
        check_userhash_value_def Let_def split: sum.splits)

lemma create_album_returns_stripped_body:
  assumes "userhash c = Some h"
    and "http_post w (create_album_request h files title description) = Inr r"
    and "resp_status r < 400"
    and "resp_text r = Inr body"
  shows "fst (create_album c w files title description) = Inr (strip body)"
  using assms
  by (simp add: create_album_def try_except_def check_userhash_value_def raise_for_status_def
        Let_def)

text \<open>
  C8. \<open>create_album\<close> submits a \<open>files\<close> field that is the space-joined sequence of
  the shortcodes of the member URLs. The code does not: for the two members
  \<open>https://files.catbox.moe/ab.png\<close> and \<open>cd.png\<close> the shortcodes joined are
  \<open>ab.png cd.png\<close>, and the field submitted is \<open>a b . p n g   c d . p n g\<close>.
\<close>

theorem create_album_files_field:
  "map (\<lambda>r. map_of (req_fields r) ''files'')
     (posts (snd (create_album \<lparr>userhash = Some ''h''\<rparr> served_world
                    [''https://files.catbox.moe/ab.png'', ''cd.png''] ''t'' ''d'')))
     = [Some (Text ''a b . p n g   c d . p n g'')] \<and>
   join '' '' (map get_shortcode_from_url [''https://files.catbox.moe/ab.png'', ''cd.png''])
     = ''ab.png cd.png''"
  by (simp add: create_album_def create_album_request_def try_except_def
        check_userhash_value_def served_world_def raise_for_status_def Let_def join_str_def
        get_shortcode_from_url_def startswith_def file_url_def album_url_def)

section \<open>Album uploads: the litterbox variant and the failure of a member\<close>

text \<open>
  When the upload of some member fails, \<open>upload_album\<close> raises the error of a
  failing member, unchanged: \<open>upload_file\<close> lets no timeout and no \<open>aiohttp\<close> error
  through, so no \<open>except\<close> clause of \<open>upload_album\<close> applies. Under per-file success
  \<open>upload_album_to_litterbox\<close> returns the URLs in input order, as \<open>upload_album\<close>
  does.
\<close>

lemma gather_failure:
  "\<exists>p\<in>set ps. isl (fst (up p)) \<Longrightarrow>
   \<exists>p\<in>set ps. \<exists>e. fst (up p) = Inl e \<and> fst (gather (map up ps)) = Inl e"
proof (induction ps)
  case Nil
  then show ?case by simp
next
  case (Cons p ps)
  obtain r ev where up: "up p = (r, ev)" by (cases "up p")
  obtain rs evs where g: "gather (map up ps) = (rs, evs)" by (cases "gather (map up ps)")
  show ?case
  proof (cases r)
    case (Inl e)
    with up g have "fst (up p) = Inl e \<and> fst (gather (map up (p # ps))) = Inl e" by simp
    then show ?thesis by auto
  next
    case (Inr v)
    with up Cons.prems have "\<exists>q\<in>set ps. isl (fst (up q))" by auto
    then obtain q e where q: "q \<in> set ps" "fst (up q) = Inl e" "fst (gather (map up ps)) = Inl e"
      using Cons.IH by blast
    with up g Inr have "fst (gather (map up (p # ps))) = Inl e" by simp
    with q show ?thesis by auto
  qed
qed

lemma upload_chunks_failure:
  "\<exists>p\<in>set (concat chs). isl (fst (up p)) \<Longrightarrow>
   \<exists>p\<in>set (concat chs). \<exists>e. fst (up p) = Inl e \<and> fst (upload_chunks up s acc chs) = Inl e"
proof (induction chs arbitrary: acc)
  case Nil
  then show ?case by simp
next
  case (Cons ch chs)
  show ?case
  proof (cases "\<exists>p\<in>set ch. isl (fst (up p))")
    case True
    then obtain q e where q: "q \<in> set ch" "fst (up q) = Inl e" "fst (gather (map up ch)) = Inl e"
      using gather_failure [of ch up] by blast
    then obtain ev where "gather (map up ch) = (Inl e, ev)"
      by (cases "gather (map up ch)") simp
    then have "fst (upload_chunks up s acc (ch # chs)) = Inl e" by simp
    with q show ?thesis by auto
  next
    case False
    then have "\<forall>p\<in>set ch. fst (up p) = Inr (projr (fst (up p)))" by simp
    then have "fst (gather (map up ch)) = Inr (map (\<lambda>p. projr (fst (up p))) ch)"
      by (rule gather_success)
    then obtain ev where g: "gather (map up ch) = (Inr (map (\<lambda>p. projr (fst (up p))) ch), ev)"
      by (cases "gather (map up ch)") simp
    from False Cons.prems have "\<exists>p\<in>set (concat chs). isl (fst (up p))" by auto
    then obtain q e where q: "q \<in> set (concat chs)" "fst (up q) = Inl e"
      "fst (upload_chunks up s (acc @ map (\<lambda>p. projr (fst (up p))) ch) chs) = Inl e"
      using Cons.IH by blast
    obtain r' ev' where
      u: "upload_chunks up s (acc @ map (\<lambda>p. projr (fst (up p))) ch) chs = (r', ev')"
      by (cases "upload_chunks up s (acc @ map (\<lambda>p. projr (fst (up p))) ch) chs")
    with g q(3) have "fst (upload_chunks up s acc (ch # chs)) = Inl e" by simp
    with q show ?thesis by auto
  qed
qed

lemma client_error_kinds:
  "is_ClientConnectionError e \<Longrightarrow> is_ClientError e"
  "is_ClientResponseError e \<Longrightarrow> is_ClientError e"
  by (cases e; simp)+

lemma upload_file_except_kind:
  "\<not> is_TimeoutError (upload_file_except timeout e) \<and>
   \<not> is_ClientError (upload_file_except timeout e)"
  by (cases e) (simp_all add: upload_file_except_def)

lemma upload_file_error_kind:
  assumes "fst (upload_file c w x timeout name) = Inl e"
  shows "\<not> is_TimeoutError e \<and> \<not> is_ClientError e"
proof -
  obtain r ev where b: "upload_file_body c w x timeout name = (r, ev)"
    by (cases "upload_file_body c w x timeout name")
  with assms have "\<exists>e0. e = upload_file_except timeout e0"
    by (cases r) (auto simp: upload_file_def try_except_def)
  then show ?thesis by (auto simp: upload_file_except_kind)
qed

lemma album_except_id:
  "\<not> is_TimeoutError e \<Longrightarrow> \<not> is_ClientError e \<Longrightarrow> album_except timeout e = e"
  using client_error_kinds [of e] by (auto simp: album_except_def)

lemma fst_try_except_Inl: "fst m = Inl e \<Longrightarrow> fst (try_except h m) = Inl (h e)"
  by (auto simp: try_except_def split: prod.splits sum.splits)

lemma upload_album_failure:
  assumes "1 \<le> chunk_size"
    and "\<exists>p\<in>set file_paths. isl (fst (upload_file c w (PyStr p) timeout None))"
  shows "\<exists>p\<in>set file_paths. \<exists>e.
           fst (upload_file c w (PyStr p) timeout None) = Inl e \<and>
           fst (upload_album c w file_paths timeout chunk_size time_sleep) = Inl e"
proof -
  let ?up = "\<lambda>file_path. upload_file c w (PyStr file_path) timeout None"
  obtain chs where c: "chunks file_paths chunk_size = Inr chs" and cc: "concat chs = file_paths"
    using chunks_positive [OF assms(1), of file_paths] by blast
  have "\<exists>p\<in>set (concat chs). isl (fst (?up p))" using assms(2) cc by simp
  then obtain p e where p: "p \<in> set (concat chs)" "fst (?up p) = Inl e"
    "fst (upload_chunks ?up time_sleep [] chs) = Inl e"
    using upload_chunks_failure [of chs ?up time_sleep "[]"] by blast
  have "album_except timeout e = e"
    using upload_file_error_kind [OF p(2)] by (simp add: album_except_id)
  with p(3) c have "fst (upload_album c w file_paths timeout chunk_size time_sleep) = Inl e"
    by (simp add: upload_album_def fst_try_except_Inl)
  with p cc show ?thesis by auto
qed

lemma upload_album_to_litterbox_order:
  assumes "1 \<le> chunk_size"
    and "\<forall>p\<in>set file_paths.
           fst (upload_to_litterbox c w (PyStr p) None duration timeout) = Inr (url_of p)"
  shows "fst (upload_album_to_litterbox c w file_paths timeout duration chunk_size time_sleep)
           = Inr (map url_of file_paths)"
proof -
  let ?up = "\<lambda>file_path. upload_to_litterbox c w (PyStr file_path) None duration timeout"
  obtain chs where c: "chunks file_paths chunk_size = Inr chs" and cc: "concat chs = file_paths"
    using chunks_positive [OF assms(1), of file_paths] by blast
  have "\<forall>p\<in>set (concat chs). fst (?up p) = Inr (url_of p)" using assms(2) cc by simp
  then have "fst (upload_chunks ?up time_sleep [] chs) = Inr ([] @ map url_of (concat chs))"
    by (rule upload_chunks_success)
  then show ?thesis
    using c cc by (simp add: upload_album_to_litterbox_def fst_try_except_Inr)
qed

end
